theory Spec2Isabelle
  imports Complex_Main
begin

section \<open>Geodesy primitives (src/utils/gps.py)\<close>

text \<open>
  Python floats are modelled as real numbers: the embedding follows the arithmetic the
  source writes, without rounding, NaN or infinities. Latitude/longitude pairs are
  tuples \<open>(lat, lon)\<close> in degrees.
\<close>

type_synonym point = "real \<times> real"

text \<open>\<open>np.radians\<close>: degrees to radians.\<close>

definition radians :: "real \<Rightarrow> real" where
  "radians d = d * pi / 180"

text \<open>
  \<open>np.arctan2(y, x)\<close>: the angle of the point \<open>(x, y)\<close> in \<open>(-pi, pi]\<close>, by
  quadrant, with \<open>arctan2(0, 0) = 0\<close>.
\<close>

definition arctan2 :: "real \<Rightarrow> real \<Rightarrow> real" where
  "arctan2 y x =
     (if 0 < x then arctan (y / x)
      else if x < 0 then (if 0 \<le> y then arctan (y / x) + pi else arctan (y / x) - pi)
      else if 0 < y then pi / 2
      else if y < 0 then - (pi / 2)
      else 0)"

text \<open>The haversine term \<open>a\<close> of \<open>haversine_distance\<close>, on radians.\<close>

definition hav_a :: "real \<Rightarrow> real \<Rightarrow> real \<Rightarrow> real \<Rightarrow> real" where
  "hav_a lat1 lon1 lat2 lon2 =
     (let dlat = lat2 - lat1;
          dlon = lon2 - lon1
      in (sin (dlat / 2))\<^sup>2 + cos lat1 * cos lat2 * (sin (dlon / 2))\<^sup>2)"

text \<open>
  \<open>haversine_distance(point1, point2)\<close>: \<open>R = 6371000\<close>,
  \<open>c = 2 * arctan2(sqrt(a), sqrt(1 - a))\<close>, result \<open>R * c\<close>.
\<close>

definition earth_radius :: real where
  "earth_radius = 6371000"

definition haversine_distance :: "point \<Rightarrow> point \<Rightarrow> real" where
  "haversine_distance point1 point2 =
     (let lat1 = radians (fst point1); lon1 = radians (snd point1);
          lat2 = radians (fst point2); lon2 = radians (snd point2);
          a = hav_a lat1 lon1 lat2 lon2;
          c = 2 * arctan2 (sqrt a) (sqrt (1 - a))
      in earth_radius * c)"

text \<open>
  \<open>filter_gps_jumps(points, max_jump_meters)\<close>. The loop keeps the list
  \<open>filtered_points\<close>; a point is appended when its distance from
  \<open>filtered_points[-1]\<close> is at most the limit.
\<close>

fun filter_loop :: "real \<Rightarrow> point list \<Rightarrow> point list \<Rightarrow> point list" where
  "filter_loop max_jump_meters filtered_points [] = filtered_points"
| "filter_loop max_jump_meters filtered_points (p # ps) =
     (let distance = haversine_distance (last filtered_points) p
      in if distance \<le> max_jump_meters
         then filter_loop max_jump_meters (filtered_points @ [p]) ps
         else filter_loop max_jump_meters filtered_points ps)"

definition filter_gps_jumps :: "point list \<Rightarrow> real \<Rightarrow> point list" where
  "filter_gps_jumps points max_jump_meters =
     (if length points < 2 then points
      else filter_loop max_jump_meters [hd points] (tl points))"

section \<open>Course model (src/models/dataclasses.py)\<close>

text \<open>
  The dataclasses \<open>Mark\<close> and \<open>CompoundMark\<close>. Both have fields called \<open>name\<close> and
  \<open>seq_id\<close>; the record fields carry a prefix to keep them apart.
\<close>

record Mark =
  mark_name :: string
  mark_lat :: real
  mark_lon :: real
  mark_seq_id :: int
  mark_twd :: "real option"
  mark_tws :: "real option"

record CompoundMark =
  cm_id :: int
  cm_name :: string
  marks :: "Mark list"
  rounding :: string
  cm_seq_id :: int
  zone_size :: real

text \<open>
  Python exceptions that the modelled functions can raise: \<open>IndexError\<close> from list
  indexing, \<open>SchemaError\<close> and \<open>SchemaErrors\<close> from the pandera validation of a returned
  frame.
\<close>

datatype py_error = IndexError | SchemaError | SchemaErrors

text \<open>
  \<open>xs[i]\<close> on a Python list: a negative index counts from the end, anything outside
  \<open>-len .. len - 1\<close> raises \<open>IndexError\<close>.
\<close>

definition py_index :: "'a list \<Rightarrow> int \<Rightarrow> py_error + 'a" where
  "py_index xs i =
     (if 0 \<le> i \<and> i < int (length xs) then Inr (xs ! nat i)
      else if i < 0 \<and> - int (length xs) \<le> i then Inr (xs ! nat (int (length xs) + i))
      else Inl IndexError)"

text \<open>The expression \<open>course[i].marks[0]\<close>, used by every consumer of a leg number.\<close>

definition first_mark :: "CompoundMark list \<Rightarrow> int \<Rightarrow> py_error + Mark" where
  "first_mark course i =
     (case py_index course i of
        Inl e \<Rightarrow> Inl e
      | Inr compound \<Rightarrow> py_index (marks compound) 0)"

section \<open>Mark-progression tracker (src/navigation/course.py)\<close>

definition ROUNDING_ZONE :: real where
  "ROUNDING_ZONE = 100"

definition MAX_POSITION_JUMP :: real where
  "MAX_POSITION_JUMP = 300"

text \<open>\<open>np.cross\<close> on two 2-vectors; \<open>np.sign\<close> is \<^const>\<open>sgn\<close>, \<open>np.abs\<close> is \<^const>\<open>abs\<close>.\<close>

definition cross2 :: "real \<times> real \<Rightarrow> real \<times> real \<Rightarrow> real" where
  "cross2 u v = fst u * snd v - snd u * fst v"

text \<open>
  \<open>is_mark_rounded(current_pos, mark, prev_pos)\<close>. The branches are in the order of the
  source: the jump guard, the single-mark zone test, and for any other number of marks
  the gate test (no previous position: not rounded; inside the zone of any mark: rounded;
  otherwise the side test against the line through \<open>marks[0]\<close> and \<open>marks[1]\<close>, which
  raises when these do not exist).
\<close>

definition is_mark_rounded :: "point \<Rightarrow> CompoundMark \<Rightarrow> point option \<Rightarrow> py_error + bool" where
  "is_mark_rounded current_pos mark prev_pos =
     (if (case prev_pos of
            None \<Rightarrow> False
          | Some pp \<Rightarrow> haversine_distance current_pos pp > MAX_POSITION_JUMP)
      then Inr False
      else if length (marks mark) = 1 then
        Inr (haversine_distance (fst current_pos, snd current_pos)
               (mark_lat (marks mark ! 0), mark_lon (marks mark ! 0)) \<le> ROUNDING_ZONE)
      else
        (case prev_pos of
           None \<Rightarrow> Inr False
         | Some pp \<Rightarrow>
             if list_ex (\<lambda>gate_mark.
                  haversine_distance (fst current_pos, snd current_pos)
                    (mark_lat gate_mark, mark_lon gate_mark) \<le> ROUNDING_ZONE) (marks mark)
             then Inr True
             else if length (marks mark) < 2 then Inl IndexError
             else
               (let gate_vector =
                      (mark_lat (marks mark ! 1) - mark_lat (marks mark ! 0),
                       mark_lon (marks mark ! 1) - mark_lon (marks mark ! 0));
                    boat_vector = (fst current_pos - fst pp, snd current_pos - snd pp)
                in if \<bar>cross2 gate_vector boat_vector\<bar> > 1 / 10 ^ 10 then
                     (let prev_vector =
                            (fst pp - mark_lat (marks mark ! 0), snd pp - mark_lon (marks mark ! 0));
                          current_vector =
                            (fst current_pos - mark_lat (marks mark ! 0),
                             snd current_pos - mark_lon (marks mark ! 0));
                          prev_side = cross2 gate_vector prev_vector;
                          current_side = cross2 gate_vector current_vector
                      in Inr (sgn prev_side \<noteq> sgn current_side))
                   else Inr False)))"

text \<open>
  One output row of \<open>add_own_mark_tracking\<close>: the three columns it adds. The input
  frame is read only through its position columns, so a boat's stream is the list of its
  \<open>(LATITUDE_GPS_unk, LONGITUDE_GPS_unk)\<close> pairs in row order.
\<close>

record MarkTracking =
  NEXT_MARK :: string
  MARK_DISTANCE :: real
  CURRENT_LEG_NUM :: nat

text \<open>The "Get next mark info" part of the loop body.\<close>

definition next_mark_info :: "CompoundMark list \<Rightarrow> nat \<Rightarrow> point \<Rightarrow> py_error + MarkTracking" where
  "next_mark_info course current_mark_idx current_pos =
     (if current_mark_idx \<ge> length course then
        Inr \<lparr>NEXT_MARK = ''FINISHED'', MARK_DISTANCE = 0, CURRENT_LEG_NUM = current_mark_idx\<rparr>
      else
        (case marks (course ! current_mark_idx) of
           [] \<Rightarrow> Inl IndexError
         | next_mark # _ \<Rightarrow>
             Inr \<lparr>NEXT_MARK = mark_name next_mark,
                  MARK_DISTANCE =
                    haversine_distance current_pos (mark_lat next_mark, mark_lon next_mark),
                  CURRENT_LEG_NUM = current_mark_idx\<rparr>))"

text \<open>
  The "Check if mark has been rounded" part: the new value of \<open>current_mark_idx\<close>.
  A position tuple is always truthy, so \<open>if prev_pos\<close> tests for \<open>None\<close>.
\<close>

definition advance_idx ::
  "CompoundMark list \<Rightarrow> nat \<Rightarrow> point option \<Rightarrow> point \<Rightarrow> py_error + nat" where
  "advance_idx course current_mark_idx prev_pos current_pos =
     (if prev_pos \<noteq> None \<and> int current_mark_idx < int (length course) - 1 then
        (case is_mark_rounded current_pos (course ! current_mark_idx) prev_pos of
           Inl e \<Rightarrow> Inl e
         | Inr rounded \<Rightarrow> Inr (if rounded then current_mark_idx + 1 else current_mark_idx))
      else Inr current_mark_idx)"

text \<open>
  The loop over the rows, with the loop-carried locals \<open>current_mark_idx\<close> and
  \<open>prev_pos\<close> as arguments. An exception ends the run without a result.
\<close>

fun track_loop ::
  "CompoundMark list \<Rightarrow> nat \<Rightarrow> point option \<Rightarrow> point list \<Rightarrow> py_error + MarkTracking list" where
  "track_loop course current_mark_idx prev_pos [] = Inr []"
| "track_loop course current_mark_idx prev_pos (current_pos # rest) =
     (case advance_idx course current_mark_idx prev_pos current_pos of
        Inl e \<Rightarrow> Inl e
      | Inr idx' \<Rightarrow>
          (case next_mark_info course idx' current_pos of
             Inl e \<Rightarrow> Inl e
           | Inr row \<Rightarrow>
               (case track_loop course idx' (Some current_pos) rest of
                  Inl e \<Rightarrow> Inl e
                | Inr rows \<Rightarrow> Inr (row # rows))))"

definition add_own_mark_tracking ::
  "point list \<Rightarrow> CompoundMark list \<Rightarrow> py_error + MarkTracking list" where
  "add_own_mark_tracking boat_data course = track_loop course 0 None boat_data"

section \<open>Leader identification (src/race_analysis/leader.py)\<close>

text \<open>
  The value stored per boat by \<open>get_positions_at_timestamp\<close>. The dictionary
  \<open>boat_positions\<close> is the list of its items in insertion order, which is the order
  \<open>min\<close> walks the keys in; \<open>boat_positions[bid]\<close> is \<^const>\<open>map_of\<close>.
\<close>

record BoatProgress =
  position :: point
  mark_idx :: int
  dist_to_mark :: real

text \<open>Python's \<open><\<close> on the pairs \<open>(-mark_idx, dist_to_mark)\<close>: lexicographic.\<close>

fun tuple_less :: "int \<times> real \<Rightarrow> int \<times> real \<Rightarrow> bool" where
  "tuple_less (a, b) (c, d) = (a < c \<or> (a = c \<and> b < d))"

text \<open>
  The builtin \<open>min(iterable, key=...)\<close>: the running minimum is replaced only by an
  element whose key is strictly smaller, so the first of several minimal elements wins.
\<close>

fun py_min :: "('a \<Rightarrow> int \<times> real) \<Rightarrow> 'a \<Rightarrow> 'a list \<Rightarrow> 'a" where
  "py_min key best [] = best"
| "py_min key best (x # xs) = py_min key (if tuple_less (key x) (key best) then x else best) xs"

definition leader_key :: "(string \<times> BoatProgress) list \<Rightarrow> string \<Rightarrow> int \<times> real" where
  "leader_key boat_positions bid =
     (- mark_idx (the (map_of boat_positions bid)),
      dist_to_mark (the (map_of boat_positions bid)))"

definition determine_leader :: "(string \<times> BoatProgress) list \<Rightarrow> string option" where
  "determine_leader boat_positions =
     (case map fst boat_positions of
        [] \<Rightarrow> None
      | bid # bids \<Rightarrow> Some (py_min (leader_key boat_positions) bid bids))"

section \<open>Distance to leader (src/race_analysis/dtl.py)\<close>

text \<open>
  Rows of the frames \<open>GPSPositionDataSchema\<close>, \<open>LeaderDataSchema\<close> and
  \<open>DTLDataSchema\<close>. Timestamps are integers (nanoseconds since the epoch). Columns that
  occur in several frames are told apart by a prefix: \<open>POS_LEG_NUM\<close> is the column
  \<open>CURRENT_LEG_NUM\<close> of a position row, \<open>LEADER_DATETIME\<close> and \<open>DTL_DATETIME\<close> are the
  \<open>DATETIME\<close> columns of the leader and of the result frame.
\<close>

record GPSPosition =
  DATETIME :: int
  LATITUDE_GPS :: real
  LONGITUDE_GPS :: real
  POS_LEG_NUM :: int
  SPEED :: real
  HEADING :: real

record LeaderRow =
  LEADER_DATETIME :: int
  LEADER_ID :: string
  LEADER_LAT :: real
  LEADER_LON :: real
  LEADER_LEG :: int

record DTLRow =
  DTL_DATETIME :: int
  DTL_DIRECT :: real
  DTL_INDIRECT :: real
  LEG_BEHIND :: int

text \<open>
  \<open>Series.searchsorted(value)\<close> with the default \<open>side='left'\<close>: the binary search of
  numpy, which moves the lower bound past every probed element smaller than the value.
\<close>

function binsearch_left :: "int list \<Rightarrow> int \<Rightarrow> nat \<Rightarrow> nat \<Rightarrow> nat" where
  "binsearch_left arr key_val min_idx max_idx =
     (if min_idx < max_idx then
        (let mid_idx = min_idx + (max_idx - min_idx) div 2
         in if arr ! mid_idx < key_val
            then binsearch_left arr key_val (mid_idx + 1) max_idx
            else binsearch_left arr key_val min_idx mid_idx)
      else min_idx)"
  by pat_completeness auto
termination
  by (relation "measure (\<lambda>(arr, key_val, min_idx, max_idx). max_idx - min_idx)") auto

declare binsearch_left.simps [simp del]

definition searchsorted :: "int list \<Rightarrow> int \<Rightarrow> nat" where
  "searchsorted arr v = binsearch_left arr v 0 (length arr)"

text \<open>
  "Find corresponding leader data": the index from \<open>searchsorted\<close>, the bound check that
  skips the sample, and \<open>leader_data.iloc[leader_idx]\<close>.
\<close>

definition find_leader_row :: "LeaderRow list \<Rightarrow> int \<Rightarrow> LeaderRow option" where
  "find_leader_row leader_data t =
     (let leader_idx = searchsorted (map LEADER_DATETIME leader_data) t
      in if leader_idx \<ge> length leader_data then None
         else Some (leader_data ! leader_idx))"

text \<open>
  A number stored in a result dictionary is a Python \<open>int\<close> or a float; pandas chooses
  the dtype of a column from the kinds of its values, so the two are kept apart until
  the frame is built.
\<close>

datatype py_num = PyInt int | PyFloat real

fun num_value :: "py_num \<Rightarrow> real" where
  "num_value (PyInt i) = of_int i"
| "num_value (PyFloat x) = x"

fun is_float :: "py_num \<Rightarrow> bool" where
  "is_float (PyInt i) = False"
| "is_float (PyFloat x) = True"

text \<open>
  One dictionary appended to \<open>results\<close> by the loop of \<open>calculate_dtl\<close>, with the keys
  \<open>DATETIME\<close>, \<open>DTL_DIRECT\<close>, \<open>DTL_INDIRECT\<close> and \<open>LEG_BEHIND\<close>. The direct distance is
  always a float (the value of \<open>haversine_distance\<close>); the course-adjusted distance is a
  float, or the \<open>int\<close> literal \<open>0\<close> assigned by the same-instant override.
\<close>

record DTLEntry =
  entry_DATETIME :: int
  entry_DTL_DIRECT :: real
  entry_DTL_INDIRECT :: py_num
  entry_LEG_BEHIND :: int

text \<open>
  The body of the loop of \<open>calculate_dtl\<close> for one row: \<open>Inr None\<close> is \<open>continue\<close>,
  \<open>Inr (Some entry)\<close> the appended dictionary, \<open>Inl\<close> an exception.
\<close>

definition dtl_row ::
  "GPSPosition \<Rightarrow> LeaderRow list \<Rightarrow> CompoundMark list \<Rightarrow> py_error + DTLEntry option" where
  "dtl_row row leader_data course =
     (case find_leader_row leader_data (DATETIME row) of
        None \<Rightarrow> Inr None
      | Some leader_row \<Rightarrow>
          (let boat_pos = (LATITUDE_GPS row, LONGITUDE_GPS row);
               leader_pos = (LEADER_LAT leader_row, LEADER_LON leader_row);
               dtl_direct = haversine_distance boat_pos leader_pos;
               mark_idx = POS_LEG_NUM row
           in case first_mark course mark_idx of
                Inl e \<Rightarrow> Inl e
              | Inr next_mark \<Rightarrow>
                  (let dist_to_next =
                         haversine_distance boat_pos (mark_lat next_mark, mark_lon next_mark);
                       leader_dist_to_next =
                         haversine_distance leader_pos (mark_lat next_mark, mark_lon next_mark);
                       dtl_indirect = dist_to_next + leader_dist_to_next;
                       leg_behind = LEADER_LEG leader_row - mark_idx;
                       dtl_indirect =
                         (if mark_idx = LEADER_LEG leader_row then dtl_direct else dtl_indirect);
                       same_instant =
                         (DATETIME row = LEADER_DATETIME leader_row \<and> dtl_direct < 1)
                   in Inr (Some \<lparr>entry_DATETIME = DATETIME row,
                                  entry_DTL_DIRECT = dtl_direct,
                                  entry_DTL_INDIRECT =
                                    (if same_instant then PyInt 0 else PyFloat dtl_indirect),
                                  entry_LEG_BEHIND =
                                    (if same_instant then 0 else leg_behind)\<rparr>))))"

text \<open>The loop over the rows of \<open>position_data\<close>, collecting \<open>results\<close>.\<close>

fun dtl_loop ::
  "GPSPosition list \<Rightarrow> LeaderRow list \<Rightarrow> CompoundMark list \<Rightarrow> py_error + DTLEntry list" where
  "dtl_loop [] leader_data course = Inr []"
| "dtl_loop (row # rest) leader_data course =
     (case dtl_row row leader_data course of
        Inl e \<Rightarrow> Inl e
      | Inr r \<Rightarrow>
          (case dtl_loop rest leader_data course of
             Inl e \<Rightarrow> Inl e
           | Inr results \<Rightarrow> Inr (case r of None \<Rightarrow> results | Some entry \<Rightarrow> entry # results)))"

definition entry_to_row :: "DTLEntry \<Rightarrow> DTLRow" where
  "entry_to_row e =
     \<lparr>DTL_DATETIME = entry_DATETIME e,
      DTL_DIRECT = entry_DTL_DIRECT e,
      DTL_INDIRECT = num_value (entry_DTL_INDIRECT e),
      LEG_BEHIND = entry_LEG_BEHIND e\<rparr>"

text \<open>
  \<open>return pd.DataFrame(results)\<close> under the decorator \<open>@pa.check_types\<close>, which validates
  the returned frame against \<open>DTLDataSchema\<close> and raises \<open>SchemaError\<close> when it does not
  conform. An empty list of dictionaries gives a frame without columns, so the required
  columns are missing. A column whose values are all \<open>int\<close> has dtype \<open>int64\<close>, which
  is not the \<open>float\<close> the schema asks of \<open>DTL_INDIRECT\<close>; one float among the values makes
  the whole column \<open>float64\<close>. The other three columns always have the dtype of the
  schema: the timestamps come from the validated input, the direct distance is a float
  and the leg difference an integer in every dictionary.
\<close>

definition dtl_frame :: "DTLEntry list \<Rightarrow> py_error + DTLRow list" where
  "dtl_frame results =
     (if results = [] then Inl SchemaError
      else if list_all (\<lambda>e. \<not> is_float (entry_DTL_INDIRECT e)) results then Inl SchemaError
      else Inr (map entry_to_row results))"

text \<open>
  \<open>calculate_dtl\<close>. The validation of the two argument frames by the decorator is in the
  types of the rows.
\<close>

definition calculate_dtl ::
  "GPSPosition list \<Rightarrow> LeaderRow list \<Rightarrow> CompoundMark list \<Rightarrow> py_error + DTLRow list" where
  "calculate_dtl position_data leader_data course =
     (case dtl_loop position_data leader_data course of
        Inl e \<Rightarrow> Inl e
      | Inr results \<Rightarrow> dtl_frame results)"

section \<open>Velocity made good on course (src/navigation/bearing.py, course.py)\<close>

definition calculate_vmc :: "real \<Rightarrow> real \<Rightarrow> real \<Rightarrow> real" where
  "calculate_vmc boat_speed boat_heading course_bearing =
     (let angle_diff = \<bar>boat_heading - course_bearing\<bar>;
          angle_diff = (if angle_diff > 180 then 360 - angle_diff else angle_diff)
      in boat_speed * cos (radians angle_diff))"

text \<open>
  \<open>calculate_bearing\<close> calls the geodesic solver of pyproj, which is not part of the
  repository; it is a parameter of the model (latitude and longitude of the boat, then of
  the mark).
\<close>

type_synonym bearing_fn = "real \<Rightarrow> real \<Rightarrow> real \<Rightarrow> real \<Rightarrow> real"

definition vmc_row :: "bearing_fn \<Rightarrow> GPSPosition \<Rightarrow> CompoundMark list \<Rightarrow> py_error + real" where
  "vmc_row calculate_bearing row course =
     (let current_pos = (LATITUDE_GPS row, LONGITUDE_GPS row)
      in if POS_LEG_NUM row = 7 then Inr 0
         else
           (case first_mark course (POS_LEG_NUM row) of
              Inl e \<Rightarrow> Inl e
            | Inr next_mark \<Rightarrow>
                (let course_bearing =
                       calculate_bearing (fst current_pos) (snd current_pos)
                         (mark_lat next_mark) (mark_lon next_mark)
                 in Inr (calculate_vmc (SPEED row) (HEADING row) course_bearing))))"

text \<open>The loop of \<open>calculate_track_vmc\<close>, collecting the values of \<open>VMC_km_h_1\<close>.\<close>

fun vmc_loop ::
  "bearing_fn \<Rightarrow> GPSPosition list \<Rightarrow> CompoundMark list \<Rightarrow> py_error + real list" where
  "vmc_loop calculate_bearing [] course = Inr []"
| "vmc_loop calculate_bearing (row # rest) course =
     (case vmc_row calculate_bearing row course of
        Inl e \<Rightarrow> Inl e
      | Inr vmc \<Rightarrow>
          (case vmc_loop calculate_bearing rest course of
             Inl e \<Rightarrow> Inl e
           | Inr results \<Rightarrow> Inr (vmc # results)))"

text \<open>
  \<open>return pd.DataFrame(results, index=boat_data.index)\<close> under
  \<open>@pa.check_types(lazy=True)\<close>: the returned frame is validated against
  \<open>VMCAnnotationDataSchema\<close>. Every value is a float, so the only frame that fails is the
  one built from no rows, which has no column \<open>VMC_km_h_1\<close>; with \<open>lazy=True\<close> the
  exception is \<open>SchemaErrors\<close>.
\<close>

definition calculate_track_vmc ::
  "bearing_fn \<Rightarrow> GPSPosition list \<Rightarrow> CompoundMark list \<Rightarrow> py_error + real list" where
  "calculate_track_vmc calculate_bearing boat_data course =
     (case vmc_loop calculate_bearing boat_data course of
        Inl e \<Rightarrow> Inl e
      | Inr results \<Rightarrow> if results = [] then Inl SchemaErrors else Inr results)"

text \<open>
  The angle between two compass directions as the specification words it: the difference
  taken modulo a full turn and folded into \<open>[0, 180]\<close> degrees. It is the reference the
  reduction inside \<open>calculate_vmc\<close> is compared with.
\<close>

definition angular_difference :: "real \<Rightarrow> real \<Rightarrow> real" where
  "angular_difference heading bearing =
     (let d = \<bar>heading - bearing\<bar>;
          m = d - 360 * of_int \<lfloor>d / 360\<rfloor>
      in if m > 180 then 360 - m else m)"

section \<open>Auxiliary notions for the statements\<close>

text \<open>
  The index sequence of a tracking run, read step by step: starting from \<open>i\<close>, every
  emitted index is the previous one or the previous one plus one.
\<close>

fun steps_ok :: "nat \<Rightarrow> nat list \<Rightarrow> bool" where
  "steps_ok i [] = True"
| "steps_ok i (j # js) = (i \<le> j \<and> j \<le> i + 1 \<and> steps_ok j js)"

text \<open>Marks and compound marks for the worked examples; only name and position vary.\<close>

definition mk_mark :: "string \<Rightarrow> real \<Rightarrow> real \<Rightarrow> Mark" where
  "mk_mark n la lo =
     \<lparr>mark_name = n, mark_lat = la, mark_lon = lo, mark_seq_id = 0,
      mark_twd = None, mark_tws = None\<rparr>"

definition mk_compound :: "string \<Rightarrow> Mark list \<Rightarrow> CompoundMark" where
  "mk_compound n ms =
     \<lparr>cm_id = 0, cm_name = n, marks = ms, rounding = [], cm_seq_id = 0, zone_size = 50\<rparr>"

text \<open>Courses, leader rows and position rows of the worked examples.\<close>

definition two_marks :: "CompoundMark list" where
  "two_marks = [mk_compound ''M1'' [mk_mark ''M1'' 0 0], mk_compound ''M2'' [mk_mark ''M2'' 0 0]]"

definition gate_deg :: CompoundMark where
  "gate_deg = mk_compound ''Gate'' [mk_mark ''G1'' 0 0, mk_mark ''G2'' 0 1]"

definition gate_small :: CompoundMark where
  "gate_small = mk_compound ''Gate'' [mk_mark ''G1'' 0 0, mk_mark ''G2'' 0 (1 / 1000)]"

definition far_mark :: CompoundMark where
  "far_mark = mk_compound ''M2'' [mk_mark ''M2'' 10 10]"

definition leader_at :: "int \<Rightarrow> real \<Rightarrow> real \<Rightarrow> int \<Rightarrow> LeaderRow" where
  "leader_at t la lo leg =
     \<lparr>LEADER_DATETIME = t, LEADER_ID = ''A'', LEADER_LAT = la, LEADER_LON = lo,
      LEADER_LEG = leg\<rparr>"

definition sample_at :: "int \<Rightarrow> real \<Rightarrow> real \<Rightarrow> int \<Rightarrow> GPSPosition" where
  "sample_at t la lo leg =
     \<lparr>DATETIME = t, LATITUDE_GPS = la, LONGITUDE_GPS = lo, POS_LEG_NUM = leg,
      SPEED = 10, HEADING = 0\<rparr>"

definition boat_at :: "int \<Rightarrow> real \<Rightarrow> BoatProgress" where
  "boat_at leg metres = \<lparr>position = (0, 0), mark_idx = leg, dist_to_mark = metres\<rparr>"

section \<open>Properties of the haversine distance\<close>

lemma hav_a_refl: "hav_a la lo la lo = 0"
  by (simp add: hav_a_def)

lemma haversine_refl: "haversine_distance p p = 0"
  by (simp add: haversine_distance_def hav_a_refl arctan2_def)

lemma hav_a_sym: "hav_a la1 lo1 la2 lo2 = hav_a la2 lo2 la1 lo1"
proof -
  have "sin ((la2 - la1) / 2) = - sin ((la1 - la2) / 2)"
    by (metis minus_diff_eq minus_divide_left sin_minus)
  moreover have "sin ((lo2 - lo1) / 2) = - sin ((lo1 - lo2) / 2)"
    by (metis minus_diff_eq minus_divide_left sin_minus)
  ultimately show ?thesis
    by (simp add: hav_a_def Let_def mult.commute)
qed

lemma haversine_sym: "haversine_distance a b = haversine_distance b a"
  using hav_a_sym by (simp add: haversine_distance_def Let_def)

lemma hav_a_nonneg_le1: "0 \<le> hav_a la1 lo1 la2 lo2 \<and> hav_a la1 lo1 la2 lo2 \<le> 1"
proof -
  define s where "s = (sin ((lo2 - lo1) / 2))\<^sup>2"
  define d where "d = (sin ((la2 - la1) / 2))\<^sup>2"
  define c where "c = cos la1 * cos la2"
  define k where "k = cos (la1 + la2)"
  have k: "- 1 \<le> k" "k \<le> 1" by (simp_all add: k_def)
  have s: "0 \<le> s" "s \<le> 1" unfolding s_def by (simp_all add: abs_square_le_1)
  have d: "0 \<le> d" "d \<le> 1" unfolding d_def by (simp_all add: abs_square_le_1)
  have a: "hav_a la1 lo1 la2 lo2 = d + c * s"
    by (simp add: hav_a_def Let_def s_def d_def c_def)
  have "2 * ((la2 - la1) / 2) = la2 - la1" by simp
  then have "cos (la2 - la1) = 1 - 2 * d"
    using cos_double_sin [of "(la2 - la1) / 2"] by (simp only: d_def)
  then have "d + c = (1 + cos (la1 + la2)) / 2"
    by (simp add: cos_diff cos_add c_def field_simps)
  then have dc: "d + c = (1 + k) / 2" by (simp add: k_def)
  have dc0: "0 \<le> d + c" using dc k by argo
  have dc1: "d + c \<le> 1" using dc k by argo
  show ?thesis
  proof (cases "0 \<le> c")
    case True
    then have "0 \<le> c * s" "c * s \<le> c" using s by (simp_all add: mult_left_le)
    then show ?thesis using a d dc0 dc1 by simp
  next
    case False
    then have "c * s \<le> 0" "c \<le> c * s" using s
      by (simp_all add: mult_le_0_iff mult_left_le_one_le)
    then show ?thesis using a d dc0 dc1 by simp
  qed
qed

lemma arctan2_arcsin:
  assumes "0 \<le> a" "a \<le> 1"
  shows "arctan2 (sqrt a) (sqrt (1 - a)) = arcsin (sqrt a)"
proof (cases "a = 1")
  case True
  then show ?thesis by (simp add: arctan2_def)
next
  case False
  define x where "x = sqrt a"
  have x: "0 \<le> x" "x < 1" using assms False by (simp_all add: x_def)
  have a: "a = x\<^sup>2" using assms by (simp add: x_def)
  define t where "t = arcsin x"
  have t: "- (pi / 2) < t" "t < pi / 2"
    using x arcsin_bounded [of x] arcsin_less_arcsin [of x 1] arcsin_lbound [of x]
      arcsin_less_arcsin [of "-1" x] by (simp_all add: t_def)
  have ct: "cos t = sqrt (1 - a)" using x by (simp add: t_def cos_arcsin a)
  have st: "sin t = x" using x by (simp add: t_def)
  have pos: "0 < sqrt (1 - a)" using x a by (simp add: power_less_one_iff abs_square_less_1)
  have "arctan (x / sqrt (1 - a)) = arctan (tan t)" by (simp add: tan_def ct st)
  also have "\<dots> = t" using t by (rule arctan_tan)
  finally show ?thesis using pos by (simp add: arctan2_def x_def t_def)
qed

lemma haversine_arcsin:
  "haversine_distance p q =
     earth_radius * (2 * arcsin (sqrt (hav_a (radians (fst p)) (radians (snd p)) (radians (fst q)) (radians (snd q)))))"
  using hav_a_nonneg_le1 by (simp add: haversine_distance_def Let_def arctan2_arcsin)

lemma arcsin_sqrt_sin_sq:
  assumes "\<bar>x\<bar> \<le> pi / 2"
  shows "arcsin (sqrt ((sin x)\<^sup>2)) = \<bar>x\<bar>"
proof -
  have "\<bar>sin x\<bar> = sin \<bar>x\<bar>"
  proof (cases "0 \<le> x")
    case True
    then have "0 \<le> sin x" using assms by (intro sin_ge_zero) auto
    then show ?thesis using True by simp
  next
    case False
    then have "0 \<le> sin (- x)" using assms by (intro sin_ge_zero) auto
    then show ?thesis using False by simp
  qed
  then show ?thesis using assms by (simp add: arcsin_sin)
qed

lemma haversine_same_lon:
  assumes "\<bar>la2 - la1\<bar> \<le> 180"
  shows "haversine_distance (la1, lo) (la2, lo) = earth_radius * radians \<bar>la2 - la1\<bar>"
proof -
  define x where "x = (radians la2 - radians la1) / 2"
  have x: "\<bar>x\<bar> = radians \<bar>la2 - la1\<bar> / 2"
    by (simp add: x_def radians_def abs_mult diff_divide_distrib [symmetric] left_diff_distrib [symmetric])
  have "radians \<bar>la2 - la1\<bar> \<le> pi" using assms by (simp add: radians_def)
  then have b: "\<bar>x\<bar> \<le> pi / 2" using x by simp
  have "hav_a (radians la1) (radians lo) (radians la2) (radians lo) = (sin x)\<^sup>2"
    by (simp add: hav_a_def x_def)
  then show ?thesis using arcsin_sqrt_sin_sq [OF b] x by (simp add: haversine_arcsin)
qed

lemma haversine_equator:
  assumes "\<bar>lo2 - lo1\<bar> \<le> 180"
  shows "haversine_distance (0, lo1) (0, lo2) = earth_radius * radians \<bar>lo2 - lo1\<bar>"
proof -
  define x where "x = (radians lo2 - radians lo1) / 2"
  have x: "\<bar>x\<bar> = radians \<bar>lo2 - lo1\<bar> / 2"
    by (simp add: x_def radians_def abs_mult diff_divide_distrib [symmetric] left_diff_distrib [symmetric])
  have "radians \<bar>lo2 - lo1\<bar> \<le> pi" using assms by (simp add: radians_def)
  then have b: "\<bar>x\<bar> \<le> pi / 2" using x by simp
  have "hav_a (radians 0) (radians lo1) (radians 0) (radians lo2) = (sin x)\<^sup>2"
    by (simp add: hav_a_def x_def radians_def)
  then show ?thesis using arcsin_sqrt_sin_sq [OF b] x by (simp add: haversine_arcsin)
qed

lemma haversine_ge_meridian:
  assumes "\<bar>la2 - la1\<bar> \<le> 180" and "0 \<le> cos (radians la1) * cos (radians la2)"
  shows "earth_radius * radians \<bar>la2 - la1\<bar> \<le> haversine_distance (la1, lo1) (la2, lo2)"
proof -
  define x where "x = (radians la2 - radians la1) / 2"
  define a where "a = hav_a (radians la1) (radians lo1) (radians la2) (radians lo2)"
  have x: "\<bar>x\<bar> = radians \<bar>la2 - la1\<bar> / 2"
    by (simp add: x_def radians_def abs_mult diff_divide_distrib [symmetric] left_diff_distrib [symmetric])
  have "radians \<bar>la2 - la1\<bar> \<le> pi" using assms by (simp add: radians_def)
  then have b: "\<bar>x\<bar> \<le> pi / 2" using x by simp
  have a01: "0 \<le> a" "a \<le> 1" using hav_a_nonneg_le1 by (simp_all add: a_def)
  have "a = (sin x)\<^sup>2 + cos (radians la1) * cos (radians la2) * (sin ((radians lo2 - radians lo1) / 2))\<^sup>2"
    by (simp add: a_def hav_a_def x_def)
  then have "(sin x)\<^sup>2 \<le> a" using assms(2) by simp
  then have "sqrt ((sin x)\<^sup>2) \<le> sqrt a" by (rule real_sqrt_le_mono)
  moreover have "sqrt a \<le> 1" using a01 by simp
  moreover have "- 1 \<le> sqrt ((sin x)\<^sup>2)" by (simp add: order_trans [of "-1" 0])
  ultimately have "arcsin (sqrt ((sin x)\<^sup>2)) \<le> arcsin (sqrt a)"
    by (intro arcsin_le_arcsin)
  then have "\<bar>x\<bar> \<le> arcsin (sqrt a)" using arcsin_sqrt_sin_sq [OF b] by simp
  then have "radians \<bar>la2 - la1\<bar> \<le> 2 * arcsin (sqrt a)" using x by simp
  then show ?thesis
    by (simp add: haversine_arcsin a_def earth_radius_def)
qed

lemma cos_radians_50: "0 \<le> cos (radians 0) * cos (radians 50)"
proof -
  have "0 \<le> cos (radians 50)"
    using pi_ge_zero by (intro cos_ge_zero) (simp_all add: radians_def)
  then show ?thesis by (simp add: radians_def)
qed

lemma jump_second: "100 < haversine_distance (0, 0) (0, 1 / 100)"
proof -
  have "haversine_distance (0, 0) (0, 1 / 100) = earth_radius * radians \<bar>1 / 100 - 0\<bar>"
    by (rule haversine_equator) simp
  then show ?thesis using pi_ge_two by (simp add: earth_radius_def radians_def)
qed

lemma jump_third: "100 < haversine_distance (0, 0) (50, 50)"
proof -
  have "earth_radius * radians \<bar>50 - 0\<bar> \<le> haversine_distance (0, 0) (50, 50)"
    using cos_radians_50 by (intro haversine_ge_meridian) simp_all
  moreover have "100 < earth_radius * radians \<bar>50 - 0\<bar>"
    using pi_ge_two by (simp add: earth_radius_def radians_def)
  ultimately show ?thesis by linarith
qed

lemma near_second: "haversine_distance (0, 0) (0, 1 / 2000) \<le> 100"
proof -
  have "haversine_distance (0, 0) (0, 1 / 2000) = earth_radius * radians \<bar>1 / 2000 - 0\<bar>"
    by (rule haversine_equator) simp
  then show ?thesis using pi_less_4 by (simp add: earth_radius_def radians_def)
qed

lemma jump_third': "100 < haversine_distance (0, 1 / 2000) (50, 50)"
proof -
  have "earth_radius * radians \<bar>50 - 0\<bar> \<le> haversine_distance (0, 1 / 2000) (50, 50)"
    using cos_radians_50 by (intro haversine_ge_meridian) simp_all
  moreover have "100 < earth_radius * radians \<bar>50 - 0\<bar>"
    using pi_ge_two by (simp add: earth_radius_def radians_def)
  ultimately show ?thesis by linarith
qed

section \<open>Claims about the geodesy primitives\<close>

text \<open>
  Claim C9. For every point \<open>p\<close> the haversine distance from \<open>p\<close> to itself is \<open>0\<close>;
  for every pair of points the distance is the same in both directions; and the Earth
  radius used is the mean radius of 6 371 000 m.
\<close>

theorem haversine_zero_and_symmetric:
  "haversine_distance p p = 0 \<and>
   haversine_distance a b = haversine_distance b a \<and>
   earth_radius = 6371000"
  using haversine_refl haversine_sym by (simp add: earth_radius_def)

text \<open>
  Claim C3, as stated: for the points \<open>[(0,0), (0,0.01), (50,50)]\<close> and a limit of
  100 m the filter returns the first two points. It does not: 0.01 degrees of longitude
  on the equator are about 1112 m, so the second point is a jump as well.
\<close>

theorem filter_keeps_two_refuted:
  "filter_gps_jumps [(0, 0), (0, 1 / 100), (50, 50)] 100 \<noteq> [(0, 0), (0, 1 / 100)]"
  using jump_second jump_third by (simp add: filter_gps_jumps_def)

text \<open>
  Claim C3, amended: for the points \<open>[(0,0), (0,0.01), (50,50)]\<close> and a limit of 100 m
  the filter drops the second and the third point and returns \<open>[(0,0)]\<close>; when the
  second point is within the limit of the first, as \<open>(0,0.0005)\<close> is (about 56 m), the
  third point alone is dropped and exactly the first two points are returned.
\<close>

theorem filter_gps_jumps_example:
  "filter_gps_jumps [(0, 0), (0, 1 / 100), (50, 50)] 100 = [(0, 0)] \<and>
   filter_gps_jumps [(0, 0), (0, 1 / 2000), (50, 50)] 100 = [(0, 0), (0, 1 / 2000)]"
  using jump_second jump_third near_second jump_third'
  by (simp add: filter_gps_jumps_def)

section \<open>The mark-progression tracker\<close>

lemma pi_ge_three: "3 \<le> pi"
proof -
  have "sin (pi / 6) \<le> pi / 6" by (rule sin_x_le_x) simp
  then show ?thesis by (simp add: sin_30)
qed

lemma advance_idx_step:
  "advance_idx course i prev cur = Inr j \<Longrightarrow> i \<le> j \<and> j \<le> i + 1"
  by (auto simp: advance_idx_def split: if_splits sum.splits)

lemma advance_idx_bound:
  "advance_idx course i prev cur = Inr j \<Longrightarrow> i < length course \<Longrightarrow> j < length course"
  by (auto simp: advance_idx_def split: if_splits sum.splits)

lemma next_mark_info_idx:
  "next_mark_info course j cur = Inr row \<Longrightarrow> CURRENT_LEG_NUM row = j"
  by (auto simp: next_mark_info_def split: if_splits list.splits)

lemma track_loop_steps:
  "track_loop course i prev ps = Inr rows \<Longrightarrow> steps_ok i (map CURRENT_LEG_NUM rows)"
proof (induction ps arbitrary: i prev rows)
  case Nil
  then show ?case by simp
next
  case (Cons cur rest)
  from Cons.prems obtain j row rows' where
    j: "advance_idx course i prev cur = Inr j" and
    row: "next_mark_info course j cur = Inr row" and
    rest: "track_loop course j (Some cur) rest = Inr rows'" and
    rows: "rows = row # rows'"
    by (auto split: sum.splits)
  from Cons.IH [OF rest] advance_idx_step [OF j] next_mark_info_idx [OF row] rows
  show ?case by simp
qed

lemma track_loop_length:
  "track_loop course i prev ps = Inr rows \<Longrightarrow> length rows = length ps"
  by (induction ps arbitrary: i prev rows) (auto split: sum.splits)

lemma steps_ok_nth:
  "steps_ok i js \<Longrightarrow> Suc k < length js \<Longrightarrow> js ! k \<le> js ! Suc k \<and> js ! Suc k \<le> js ! k + 1"
proof (induction js arbitrary: i k)
  case Nil
  then show ?case by simp
next
  case (Cons j js)
  show ?case
  proof (cases k)
    case 0
    with Cons.prems show ?thesis by (cases js) auto
  next
    case (Suc k')
    with Cons.prems Cons.IH [of j k'] show ?thesis by simp
  qed
qed

lemma steps_ok_lower: "steps_ok i js \<Longrightarrow> \<forall>j \<in> set js. i \<le> j"
  by (induction js arbitrary: i) force+

lemma steps_ok_sorted: "steps_ok i js \<Longrightarrow> sorted js"
  by (induction js arbitrary: i) (auto dest: steps_ok_lower)

lemma track_three_at_mark:
  "add_own_mark_tracking [(0, 0), (0, 0), (0, 0)] two_marks
   = Inr [\<lparr>NEXT_MARK = ''M1'', MARK_DISTANCE = 0, CURRENT_LEG_NUM = 0\<rparr>,
          \<lparr>NEXT_MARK = ''M2'', MARK_DISTANCE = 0, CURRENT_LEG_NUM = 1\<rparr>,
          \<lparr>NEXT_MARK = ''M2'', MARK_DISTANCE = 0, CURRENT_LEG_NUM = 1\<rparr>]"
  by (simp add: add_own_mark_tracking_def advance_idx_def next_mark_info_def is_mark_rounded_def
      two_marks_def mk_compound_def mk_mark_def haversine_refl MAX_POSITION_JUMP_def
      ROUNDING_ZONE_def)

text \<open>
  Claim C2. For every boat and every position stream, the leg indices emitted by the
  tracker never decrease, and from one sample to the next the index grows by at most 1.
\<close>

theorem leg_index_nondecreasing_single_step:
  assumes "add_own_mark_tracking boat_data course = Inr rows"
  shows "sorted (map CURRENT_LEG_NUM rows) \<and>
    (\<forall>k. Suc k < length rows \<longrightarrow>
      CURRENT_LEG_NUM (rows ! k) \<le> CURRENT_LEG_NUM (rows ! Suc k) \<and>
      CURRENT_LEG_NUM (rows ! Suc k) \<le> CURRENT_LEG_NUM (rows ! k) + 1)"
proof -
  have ok: "steps_ok 0 (map CURRENT_LEG_NUM rows)"
    using assms track_loop_steps by (simp add: add_own_mark_tracking_def)
  have "\<And>k. Suc k < length rows \<Longrightarrow>
      CURRENT_LEG_NUM (rows ! k) \<le> CURRENT_LEG_NUM (rows ! Suc k) \<and>
      CURRENT_LEG_NUM (rows ! Suc k) \<le> CURRENT_LEG_NUM (rows ! k) + 1"
    using steps_ok_nth [OF ok] by simp
  then show ?thesis using steps_ok_sorted [OF ok] by blast
qed

text \<open>
  Claim C2, at a concrete run: a boat resting on two coincident single marks yields the
  indices 0, 1, 1; the run satisfies the hypothesis and the step property holds along it.
\<close>

theorem leg_index_nondecreasing_single_step_witness:
  "add_own_mark_tracking [(0, 0), (0, 0), (0, 0)] two_marks
     = Inr [\<lparr>NEXT_MARK = ''M1'', MARK_DISTANCE = 0, CURRENT_LEG_NUM = 0\<rparr>,
            \<lparr>NEXT_MARK = ''M2'', MARK_DISTANCE = 0, CURRENT_LEG_NUM = 1\<rparr>,
            \<lparr>NEXT_MARK = ''M2'', MARK_DISTANCE = 0, CURRENT_LEG_NUM = 1\<rparr>] \<and>
   sorted (map CURRENT_LEG_NUM
     [\<lparr>NEXT_MARK = ''M1'', MARK_DISTANCE = 0, CURRENT_LEG_NUM = 0\<rparr>,
      \<lparr>NEXT_MARK = ''M2'', MARK_DISTANCE = 0, CURRENT_LEG_NUM = 1\<rparr>,
      \<lparr>NEXT_MARK = ''M2'', MARK_DISTANCE = 0, CURRENT_LEG_NUM = 1\<rparr>])"
  using leg_index_nondecreasing_single_step [OF track_three_at_mark] track_three_at_mark
  by blast

text \<open>
  With a non-empty course the index never gets past the last compound mark: the guard
  \<open>current_mark_idx < len(course) - 1\<close> stops the advance one short of \<open>len(course)\<close>,
  so the \<open>FINISHED\<close> branch of the loop body is only taken for an empty course.
\<close>

lemma track_loop_below_length:
  "track_loop course i prev ps = Inr rows \<Longrightarrow> i < length course \<Longrightarrow>
     \<forall>r \<in> set rows. CURRENT_LEG_NUM r < length course"
proof (induction ps arbitrary: i prev rows)
  case Nil
  then show ?case by simp
next
  case (Cons cur rest)
  from Cons.prems(1) obtain j row rows' where
    j: "advance_idx course i prev cur = Inr j" and
    row: "next_mark_info course j cur = Inr row" and
    rest: "track_loop course j (Some cur) rest = Inr rows'" and
    rows: "rows = row # rows'"
    by (auto split: sum.splits)
  have jb: "j < length course" using advance_idx_bound [OF j Cons.prems(2)] .
  from Cons.IH [OF rest jb] next_mark_info_idx [OF row] jb rows
  show ?case by simp
qed

lemma tracker_never_reaches_course_length:
  "course \<noteq> [] \<Longrightarrow> add_own_mark_tracking boat_data course = Inr rows \<Longrightarrow>
     \<forall>r \<in> set rows. CURRENT_LEG_NUM r < length course"
  using track_loop_below_length [of course 0 None boat_data rows]
  by (simp add: add_own_mark_tracking_def)

lemma empty_course_finished:
  "add_own_mark_tracking [p, q] []
   = Inr [\<lparr>NEXT_MARK = ''FINISHED'', MARK_DISTANCE = 0, CURRENT_LEG_NUM = 0\<rparr>,
          \<lparr>NEXT_MARK = ''FINISHED'', MARK_DISTANCE = 0, CURRENT_LEG_NUM = 0\<rparr>]"
  by (simp add: add_own_mark_tracking_def advance_idx_def next_mark_info_def)

text \<open>
  Claim C1 says that a boat which satisfies the rounding condition of each of the \<open>N\<close>
  compound marks in turn reaches the index \<open>N\<close> and is reported as \<open>FINISHED\<close> with
  distance \<open>0.0\<close> from then on. The tracker run on a course of \<open>N = 2\<close> single marks at
  \<open>(0,0)\<close> and a boat resting on them (inside the zone of both marks, no jump at all):
  the first mark is rounded at the second sample, the second mark never is, the index
  stays at \<open>1 = N - 1\<close> and no row is \<open>FINISHED\<close>.
\<close>

theorem tracker_stops_before_finished:
  "add_own_mark_tracking [(0, 0), (0, 0), (0, 0), (0, 0)] two_marks
   = Inr [\<lparr>NEXT_MARK = ''M1'', MARK_DISTANCE = 0, CURRENT_LEG_NUM = 0\<rparr>,
          \<lparr>NEXT_MARK = ''M2'', MARK_DISTANCE = 0, CURRENT_LEG_NUM = 1\<rparr>,
          \<lparr>NEXT_MARK = ''M2'', MARK_DISTANCE = 0, CURRENT_LEG_NUM = 1\<rparr>,
          \<lparr>NEXT_MARK = ''M2'', MARK_DISTANCE = 0, CURRENT_LEG_NUM = 1\<rparr>]"
  by (simp add: add_own_mark_tracking_def advance_idx_def next_mark_info_def is_mark_rounded_def
      two_marks_def mk_compound_def mk_mark_def haversine_refl MAX_POSITION_JUMP_def
      ROUNDING_ZONE_def)

subsection \<open>Gate crossing\<close>

lemma degree_jump: "300 < haversine_distance (1, 1 / 2) (- 1, 1 / 2)"
proof -
  have "haversine_distance (1, 1 / 2) (- 1, 1 / 2) = earth_radius * radians \<bar>- 1 - 1\<bar>"
    by (rule haversine_same_lon) simp
  then show ?thesis using pi_ge_two by (simp add: earth_radius_def radians_def)
qed

lemma small_jump: "haversine_distance (1 / 1000, 1 / 2000) (- (1 / 1000), 1 / 2000) \<le> 300"
proof -
  have "haversine_distance (1 / 1000, 1 / 2000) (- (1 / 1000), 1 / 2000)
      = earth_radius * radians \<bar>- (1 / 1000) - 1 / 1000\<bar>"
    by (rule haversine_same_lon) simp
  then show ?thesis using pi_less_4 by (simp add: earth_radius_def radians_def)
qed

lemma cos_small: "0 \<le> cos (radians (1 / 1000)) * cos (radians 0)"
proof -
  have "0 \<le> cos (radians (1 / 1000))"
    using pi_ge_zero by (intro cos_ge_zero) (simp_all add: radians_def)
  then show ?thesis by (simp add: radians_def)
qed

lemma outside_zone: "100 < haversine_distance (1 / 1000, 1 / 2000) (0, lo)"
proof -
  have "earth_radius * radians \<bar>0 - 1 / 1000\<bar> \<le> haversine_distance (1 / 1000, 1 / 2000) (0, lo)"
    using cos_small by (intro haversine_ge_meridian) simp_all
  moreover have "100 < earth_radius * radians \<bar>0 - 1 / 1000\<bar>"
    using pi_ge_three by (simp add: earth_radius_def radians_def)
  ultimately show ?thesis by linarith
qed

lemma gate_deg_not_rounded:
  "is_mark_rounded (1, 1 / 2) gate_deg (Some (- 1, 1 / 2)) = Inr False"
  using degree_jump by (simp add: is_mark_rounded_def MAX_POSITION_JUMP_def)

lemma gate_small_outside_zones:
  "\<not> list_ex (\<lambda>gate_mark. haversine_distance (1 / 1000, 1 / 2000)
        (mark_lat gate_mark, mark_lon gate_mark) \<le> ROUNDING_ZONE) (marks gate_small)"
  using outside_zone [of 0] outside_zone [of "1 / 1000"]
  by (simp add: ROUNDING_ZONE_def gate_small_def mk_compound_def mk_mark_def)

lemma gate_small_rounded:
  "is_mark_rounded (1 / 1000, 1 / 2000) gate_small (Some (- (1 / 1000), 1 / 2000)) = Inr True"
  using small_jump outside_zone [of 0] outside_zone [of "1 / 1000"]
  by (simp add: is_mark_rounded_def MAX_POSITION_JUMP_def ROUNDING_ZONE_def gate_small_def
      mk_compound_def mk_mark_def cross2_def Let_def)

text \<open>
  Claim C4, as stated: with gate marks at \<open>(0,0)\<close> and \<open>(0,1)\<close> the samples
  \<open>(-1,0.5)\<close>, \<open>(1,0.5)\<close> are detected as a crossing and the index advances once. In
  degrees the two samples are about 222 km apart, so the jump guard of 300 m answers
  "not rounded" before the gate is looked at, and the index stays at 0.
\<close>

theorem gate_crossing_degrees_refuted:
  "is_mark_rounded (1, 1 / 2) gate_deg (Some (- 1, 1 / 2)) = Inr False \<and>
   map_sum id (map CURRENT_LEG_NUM)
     (add_own_mark_tracking [(- 1, 1 / 2), (1, 1 / 2)] [gate_deg, far_mark]) = Inr [0, 0]"
  using gate_deg_not_rounded
  by (simp add: add_own_mark_tracking_def advance_idx_def next_mark_info_def
      gate_deg_def far_mark_def mk_compound_def mk_mark_def)

text \<open>
  Claim C4, amended: with the coordinates a thousand times smaller, that is gate marks at
  \<open>(0,0)\<close> and \<open>(0,0.001)\<close> and consecutive samples \<open>(-0.001,0.0005)\<close>,
  \<open>(0.001,0.0005)\<close> (a step of about 222 m, within the jump limit, ending outside the
  rounding zone of both gate marks), the second sample is detected as crossing the gate
  line, and on a course where the gate is followed by a further compound mark the tracker
  emits index 0 at the first sample and index 1 at the second: it advances exactly once,
  at the sample where the crossing is detected and not before.
\<close>

theorem gate_crossing_within_jump_limit:
  "\<not> list_ex (\<lambda>gate_mark. haversine_distance (1 / 1000, 1 / 2000)
        (mark_lat gate_mark, mark_lon gate_mark) \<le> ROUNDING_ZONE) (marks gate_small) \<and>
   is_mark_rounded (1 / 1000, 1 / 2000) gate_small (Some (- (1 / 1000), 1 / 2000)) = Inr True \<and>
   map_sum id (map CURRENT_LEG_NUM)
     (add_own_mark_tracking [(- (1 / 1000), 1 / 2000), (1 / 1000, 1 / 2000)]
        [gate_small, far_mark]) = Inr [0, 1]"
proof -
  have "map_sum id (map CURRENT_LEG_NUM)
     (add_own_mark_tracking [(- (1 / 1000), 1 / 2000), (1 / 1000, 1 / 2000)]
        [gate_small, far_mark]) = Inr [0, 1]"
    using gate_small_rounded
    by (simp add: add_own_mark_tracking_def advance_idx_def next_mark_info_def
        far_mark_def mk_compound_def mk_mark_def gate_small_def)
  then show ?thesis using gate_small_outside_zones gate_small_rounded by blast
qed

section \<open>Leader identification\<close>

lemma tuple_less_trans: "tuple_less a b \<Longrightarrow> tuple_less b c \<Longrightarrow> tuple_less a c"
  by (cases a; cases b; cases c) auto

lemma tuple_less_cotrans: "\<not> tuple_less a b \<Longrightarrow> tuple_less a c \<Longrightarrow> tuple_less b c"
  by (cases a; cases b; cases c) auto

lemma py_min_mem: "py_min key best xs \<in> set (best # xs)"
  by (induction xs arbitrary: best) (simp, force)

lemma py_min_least:
  "y \<in> set (best # xs) \<Longrightarrow> \<not> tuple_less (key y) (key (py_min key best xs))"
proof (induction xs arbitrary: best y)
  case Nil
  then show ?case by (cases "key best") auto
next
  case (Cons x xs)
  define b where "b = (if tuple_less (key x) (key best) then x else best)"
  have r: "py_min key best (x # xs) = py_min key b xs" by (simp add: b_def)
  have b: "\<not> tuple_less (key b) (key (py_min key b xs))"
    using Cons.IH [of b b] by simp
  show ?case
  proof (cases "y \<in> set xs")
    case True
    then show ?thesis using Cons.IH [of y b] r by simp
  next
    case False
    then have y: "y = best \<or> y = x" using Cons.prems by auto
    show ?thesis
    proof (cases "tuple_less (key x) (key best)")
      case True
      then have bx: "b = x" by (simp add: b_def)
      have "\<not> tuple_less (key best) (key (py_min key b xs))"
        using b bx True tuple_less_trans by blast
      then show ?thesis using y b bx r by auto
    next
      case False
      then have bb: "b = best" by (simp add: b_def)
      have "\<not> tuple_less (key x) (key (py_min key b xs))"
        using b bb False tuple_less_cotrans by blast
      then show ?thesis using y b bb r by auto
    qed
  qed
qed

lemma determine_leader_min:
  assumes "boat_positions \<noteq> []"
  shows "\<exists>bid info. determine_leader boat_positions = Some bid \<and>
           map_of boat_positions bid = Some info \<and>
           (\<forall>bid' info'. map_of boat_positions bid' = Some info' \<longrightarrow>
              mark_idx info' \<le> mark_idx info \<and>
              (mark_idx info' = mark_idx info \<longrightarrow> dist_to_mark info \<le> dist_to_mark info'))"
proof -
  obtain k ks where ks: "map fst boat_positions = k # ks"
    using assms by (cases boat_positions) auto
  define bid where "bid = py_min (leader_key boat_positions) k ks"
  have d: "determine_leader boat_positions = Some bid"
    by (simp add: determine_leader_def ks bid_def)
  have "bid \<in> set (k # ks)" unfolding bid_def by (rule py_min_mem)
  then have "bid \<in> fst ` set boat_positions" using ks by (metis set_map)
  then obtain info where info: "map_of boat_positions bid = Some info"
    by (metis map_of_eq_None_iff not_Some_eq)
  have least: "mark_idx info' \<le> mark_idx info \<and>
      (mark_idx info' = mark_idx info \<longrightarrow> dist_to_mark info \<le> dist_to_mark info')"
    if m: "map_of boat_positions bid' = Some info'" for bid' info'
  proof -
    have "bid' \<in> fst ` set boat_positions" using m by (metis map_of_eq_None_iff option.distinct(1))
    then have "bid' \<in> set (k # ks)" using ks by (metis set_map)
    then have "\<not> tuple_less (leader_key boat_positions bid') (leader_key boat_positions bid)"
      unfolding bid_def by (rule py_min_least)
    then show ?thesis using m info by (auto simp: leader_key_def)
  qed
  show ?thesis using d info least by blast
qed

text \<open>
  Claim C5. For every non-empty set of candidate boats the leader is the boat that
  minimises the key \<open>(-mark_idx, dist_to_mark)\<close>: no candidate has a higher mark index
  than the leader, and no candidate with the leader's mark index is closer to its next
  mark; in particular, of two boats at mark index 2 the one at 10 m is chosen over the
  one at 50 m, in whichever order the two are stored.
\<close>

theorem leader_minimises_key:
  "(boat_positions \<noteq> [] \<longrightarrow>
     (\<exists>bid info. determine_leader boat_positions = Some bid \<and>
         map_of boat_positions bid = Some info \<and>
         (\<forall>bid' info'. map_of boat_positions bid' = Some info' \<longrightarrow>
            mark_idx info' \<le> mark_idx info \<and>
            (mark_idx info' = mark_idx info \<longrightarrow> dist_to_mark info \<le> dist_to_mark info')))) \<and>
   determine_leader [(''A'', boat_at 2 50), (''B'', boat_at 2 10)] = Some ''B'' \<and>
   determine_leader [(''B'', boat_at 2 10), (''A'', boat_at 2 50)] = Some ''B''"
  using determine_leader_min [of boat_positions]
  by (simp add: determine_leader_def leader_key_def boat_at_def)

text \<open>
  Claim C5, at a concrete fleet: boat A at mark index 3 and 500 m, boat B at mark index
  2 and 10 m. The fleet is not empty, and the selected boat has the highest mark index.
\<close>

theorem leader_minimises_key_witness:
  "[(''A'', boat_at 3 500), (''B'', boat_at 2 10)] \<noteq> [] \<and>
   (\<exists>bid info. determine_leader [(''A'', boat_at 3 500), (''B'', boat_at 2 10)] = Some bid \<and>
       map_of [(''A'', boat_at 3 500), (''B'', boat_at 2 10)] bid = Some info \<and>
       (\<forall>bid' info'. map_of [(''A'', boat_at 3 500), (''B'', boat_at 2 10)] bid' = Some info' \<longrightarrow>
          mark_idx info' \<le> mark_idx info \<and>
          (mark_idx info' = mark_idx info \<longrightarrow> dist_to_mark info \<le> dist_to_mark info')))"
proof -
  have ne: "[(''A'', boat_at 3 500), (''B'', boat_at 2 10)] \<noteq> []" by simp
  from leader_minimises_key [of "[(''A'', boat_at 3 500), (''B'', boat_at 2 10)]"] ne
  show ?thesis by blast
qed

lemma higher_index_wins:
  "determine_leader [(''A'', boat_at 3 500), (''B'', boat_at 2 10)] = Some ''A''"
  by (simp add: determine_leader_def leader_key_def boat_at_def)

section \<open>Distance to leader\<close>

lemma binsearch_left_all_less:
  "\<forall>i < length arr. arr ! i < key_val \<Longrightarrow> lo \<le> hi \<Longrightarrow> hi \<le> length arr \<Longrightarrow>
     binsearch_left arr key_val lo hi = hi"
proof (induction arr key_val lo hi rule: binsearch_left.induct)
  case (1 arr key_val lo hi)
  show ?case
  proof (cases "lo < hi")
    case True
    define mid where "mid = lo + (hi - lo) div 2"
    have mid: "lo \<le> mid" "mid < hi" using True by (simp_all add: mid_def) 
    then have less: "arr ! mid < key_val" using "1.prems" by simp
    have "binsearch_left arr key_val (mid + 1) hi = hi"
      using "1.IH"(1) [OF True mid_def less] "1.prems" mid by simp
    then show ?thesis using True less
      by (subst binsearch_left.simps) (simp add: mid_def Let_def)
  next
    case False
    then show ?thesis using "1.prems" by (subst binsearch_left.simps) simp
  qed
qed

lemma binsearch_left_sorted:
  "sorted arr \<Longrightarrow> lo \<le> hi \<Longrightarrow> hi \<le> length arr \<Longrightarrow> (\<forall>i < lo. arr ! i < key_val) \<Longrightarrow>
     (\<forall>i. hi \<le> i \<and> i < length arr \<longrightarrow> key_val \<le> arr ! i) \<Longrightarrow>
     lo \<le> binsearch_left arr key_val lo hi \<and> binsearch_left arr key_val lo hi \<le> hi \<and>
     (\<forall>i < binsearch_left arr key_val lo hi. arr ! i < key_val) \<and>
     (\<forall>i. binsearch_left arr key_val lo hi \<le> i \<and> i < length arr \<longrightarrow> key_val \<le> arr ! i)"
proof (induction arr key_val lo hi rule: binsearch_left.induct)
  case (1 arr key_val lo hi)
  show ?case
  proof (cases "lo < hi")
    case False
    then have "binsearch_left arr key_val lo hi = lo" by (subst binsearch_left.simps) simp
    then show ?thesis using "1.prems" False by auto
  next
    case True
    define mid where "mid = lo + (hi - lo) div 2"
    have mid: "lo \<le> mid" "mid < hi" using True by (simp_all add: mid_def)
    show ?thesis
    proof (cases "arr ! mid < key_val")
      case less: True
      have r: "binsearch_left arr key_val lo hi = binsearch_left arr key_val (mid + 1) hi"
        using True less by (subst binsearch_left.simps) (simp add: mid_def Let_def)
      have below: "\<forall>i < mid + 1. arr ! i < key_val"
      proof (intro allI impI)
        fix i assume "i < mid + 1"
        then have "arr ! i \<le> arr ! mid"
          using mid "1.prems"(1,3) by (intro sorted_nth_mono) auto
        then show "arr ! i < key_val" using less by simp
      qed
      have "mid + 1 \<le> binsearch_left arr key_val (mid + 1) hi \<and>
            binsearch_left arr key_val (mid + 1) hi \<le> hi \<and>
            (\<forall>i < binsearch_left arr key_val (mid + 1) hi. arr ! i < key_val) \<and>
            (\<forall>i. binsearch_left arr key_val (mid + 1) hi \<le> i \<and> i < length arr \<longrightarrow> key_val \<le> arr ! i)"
        using "1.IH"(1) [OF True mid_def less] "1.prems" mid below by simp
      then show ?thesis using r mid by auto
    next
      case geq: False
      have r: "binsearch_left arr key_val lo hi = binsearch_left arr key_val lo mid"
        using True geq by (subst binsearch_left.simps) (simp add: mid_def Let_def)
      have above: "\<forall>i. mid \<le> i \<and> i < length arr \<longrightarrow> key_val \<le> arr ! i"
      proof (intro allI impI)
        fix i assume i: "mid \<le> i \<and> i < length arr"
        then have "arr ! mid \<le> arr ! i"
          using "1.prems"(1) by (intro sorted_nth_mono) auto
        then show "key_val \<le> arr ! i" using geq by simp
      qed
      have "lo \<le> binsearch_left arr key_val lo mid \<and>
            binsearch_left arr key_val lo mid \<le> mid \<and>
            (\<forall>i < binsearch_left arr key_val lo mid. arr ! i < key_val) \<and>
            (\<forall>i. binsearch_left arr key_val lo mid \<le> i \<and> i < length arr \<longrightarrow> key_val \<le> arr ! i)"
        using "1.IH"(2) [OF True mid_def geq] "1.prems" mid above by simp
      then show ?thesis using r mid by auto
    qed
  qed
qed

lemma searchsorted_sorted:
  assumes "sorted arr"
  shows "searchsorted arr v \<le> length arr \<and>
     (\<forall>i < searchsorted arr v. arr ! i < v) \<and>
     (\<forall>i. searchsorted arr v \<le> i \<and> i < length arr \<longrightarrow> v \<le> arr ! i)"
  using binsearch_left_sorted [OF assms, of 0 "length arr" v] by (simp add: searchsorted_def)

lemma searchsorted_all_less:
  "\<forall>x \<in> set arr. x < v \<Longrightarrow> searchsorted arr v = length arr"
  by (simp add: searchsorted_def binsearch_left_all_less)


lemma find_leader_row_first:
  assumes "sorted (map LEADER_DATETIME leader_data)"
      and "find_leader_row leader_data t = Some l"
  shows "\<exists>i < length leader_data. l = leader_data ! i \<and> t \<le> LEADER_DATETIME l \<and>
           (\<forall>j < i. LEADER_DATETIME (leader_data ! j) < t)"
proof -
  define i where "i = searchsorted (map LEADER_DATETIME leader_data) t"
  have i: "i < length leader_data" "l = leader_data ! i"
    using assms(2) by (auto simp: find_leader_row_def i_def Let_def split: if_splits)
  let ?ts = "map LEADER_DATETIME leader_data"
  have lo: "\<forall>j < i. ?ts ! j < t"
    and hi: "\<forall>j. i \<le> j \<and> j < length ?ts \<longrightarrow> t \<le> ?ts ! j"
    using searchsorted_sorted [OF assms(1), of t] unfolding i_def by blast+
  have "t \<le> ?ts ! i" using hi i(1) by simp
  then have a: "t \<le> LEADER_DATETIME (leader_data ! i)" using i(1) by simp
  have b: "\<forall>j < i. LEADER_DATETIME (leader_data ! j) < t"
  proof (intro allI impI)
    fix j assume j: "j < i"
    then have "?ts ! j < t" using lo by blast
    then show "LEADER_DATETIME (leader_data ! j) < t" using j i(1) by simp
  qed
  note a b
  then show ?thesis using i by blast
qed

lemma find_leader_row_none:
  "\<forall>l \<in> set leader_data. LEADER_DATETIME l < t \<Longrightarrow> find_leader_row leader_data t = None"
  using searchsorted_all_less [of "map LEADER_DATETIME leader_data" t]
  by (simp add: find_leader_row_def)

lemma after_last:
  assumes "sorted (map LEADER_DATETIME leader_data)" and "leader_data \<noteq> []"
      and "LEADER_DATETIME (last leader_data) < t"
  shows "\<forall>l \<in> set leader_data. LEADER_DATETIME l < t"
proof
  fix l assume "l \<in> set leader_data"
  then obtain i where i: "i < length leader_data" "l = leader_data ! i"
    by (metis in_set_conv_nth)
  have "map LEADER_DATETIME leader_data ! i
          \<le> map LEADER_DATETIME leader_data ! (length leader_data - 1)"
    using assms(1,2) i(1) by (intro sorted_nth_mono) auto
  then have "LEADER_DATETIME l \<le> LEADER_DATETIME (last leader_data)"
    using i assms(2) by (simp add: last_conv_nth)
  then show "LEADER_DATETIME l < t" using assms(3) by simp
qed

lemma dtl_loop_skip:
  "dtl_row row leader_data course = Inr None \<Longrightarrow>
     dtl_loop (before @ row # rest) leader_data course =
     dtl_loop (before @ rest) leader_data course"
  by (induction before) (auto split: sum.splits option.splits)

lemma dtl_loop_length:
  "dtl_loop position_data leader_data course = Inr entries \<Longrightarrow>
     length entries \<le> length position_data"
proof (induction position_data arbitrary: entries)
  case Nil
  then show ?case by simp
next
  case (Cons row rest)
  from Cons.prems obtain x entries' where
    rest: "dtl_loop rest leader_data course = Inr entries'" and
    res: "entries = (case x of None \<Rightarrow> entries' | Some entry \<Rightarrow> entry # entries')"
    by (auto split: sum.splits)
  from Cons.IH [OF rest] res show ?case by (cases x) auto
qed

lemma dtl_loop_entries:
  "dtl_loop position_data leader_data course = Inr entries \<Longrightarrow> e \<in> set entries \<Longrightarrow>
     \<exists>row \<in> set position_data. dtl_row row leader_data course = Inr (Some e)"
proof (induction position_data arbitrary: entries)
  case Nil
  then show ?case by simp
next
  case (Cons row rest)
  from Cons.prems(1) obtain x entries' where
    x: "dtl_row row leader_data course = Inr x" and
    rest: "dtl_loop rest leader_data course = Inr entries'" and
    res: "entries = (case x of None \<Rightarrow> entries' | Some entry \<Rightarrow> entry # entries')"
    by (auto split: sum.splits)
  show ?case
  proof (cases "e \<in> set entries'")
    case True
    then show ?thesis using Cons.IH [OF rest] by auto
  next
    case False
    then have "x = Some e" using res Cons.prems(2) by (cases x) auto
    then show ?thesis using x by simp
  qed
qed

lemma dtl_loop_emits:
  "dtl_loop position_data leader_data course = Inr entries \<Longrightarrow> row \<in> set position_data \<Longrightarrow>
     \<exists>x. dtl_row row leader_data course = Inr x \<and> (\<forall>e. x = Some e \<longrightarrow> e \<in> set entries)"
proof (induction position_data arbitrary: entries)
  case Nil
  then show ?case by simp
next
  case (Cons first rest)
  from Cons.prems(1) obtain x entries' where
    x: "dtl_row first leader_data course = Inr x" and
    rest: "dtl_loop rest leader_data course = Inr entries'" and
    res: "entries = (case x of None \<Rightarrow> entries' | Some entry \<Rightarrow> entry # entries')"
    by (auto split: sum.splits)
  have sub: "set entries' \<subseteq> set entries" using res by (cases x) auto
  show ?case
  proof (cases "row = first")
    case True
    then show ?thesis using x res by (cases x) auto
  next
    case False
    then have "row \<in> set rest" using Cons.prems(2) by simp
    then show ?thesis using Cons.IH [OF rest] sub by blast
  qed
qed

lemma dtl_frame_rows:
  "dtl_frame entries = Inr results \<Longrightarrow> results = map entry_to_row entries"
  by (auto simp: dtl_frame_def split: if_splits)

lemma calculate_dtl_frame:
  "calculate_dtl position_data leader_data course = Inr results \<Longrightarrow>
     \<exists>entries. dtl_loop position_data leader_data course = Inr entries \<and>
        results = map entry_to_row entries"
  by (auto simp: calculate_dtl_def dtl_frame_rows split: sum.splits)

lemma dtl_row_same_instant:
  assumes "find_leader_row leader_data (DATETIME row) = Some l"
      and "LEADER_DATETIME l = DATETIME row"
      and "haversine_distance (LATITUDE_GPS row, LONGITUDE_GPS row)
             (LEADER_LAT l, LEADER_LON l) < 1"
      and "dtl_row row leader_data course = Inr x"
  shows "x = Some \<lparr>entry_DATETIME = DATETIME row,
                    entry_DTL_DIRECT =
                      haversine_distance (LATITUDE_GPS row, LONGITUDE_GPS row)
                        (LEADER_LAT l, LEADER_LON l),
                    entry_DTL_INDIRECT = PyInt 0,
                    entry_LEG_BEHIND = 0\<rparr>"
  using assms by (auto simp: dtl_row_def Let_def split: sum.splits)

lemma dtl_row_entry:
  assumes "dtl_row row leader_data course = Inr (Some e)"
  shows "\<exists>l. find_leader_row leader_data (DATETIME row) = Some l \<and>
           entry_DATETIME e = DATETIME row \<and>
           (LEADER_DATETIME l = DATETIME row \<and> entry_DTL_DIRECT e < 1 \<longrightarrow>
              entry_DTL_INDIRECT e = PyInt 0 \<and> entry_LEG_BEHIND e = 0)"
  using assms
  by (auto simp: dtl_row_def Let_def split: option.splits sum.splits if_splits)

lemma searchsorted_example: "searchsorted [10, 20] 15 = 1"
  by (simp add: searchsorted_def binsearch_left.simps)

lemma searchsorted_exact: "searchsorted [10] 10 = 0"
  by (simp add: searchsorted_def binsearch_left.simps)

lemma searchsorted_before: "searchsorted [10] 5 = 0"
  by (simp add: searchsorted_def binsearch_left.simps)

lemma searchsorted_past_end: "searchsorted [10] 15 = 1"
  by (simp add: searchsorted_def binsearch_left.simps)

text \<open>
  Claim C6, as stated: the leader record used for a sample is the one at or immediately
  before the sample's timestamp, never a later one. With leader records at the times 10
  and 20, a sample at time 15 is matched with the record of time 20, and its direct
  distance is measured to the position of that later record.
\<close>

theorem nearest_below_refuted:
  "find_leader_row [leader_at 10 0 0 0, leader_at 20 0 (1 / 100) 0] 15
     = Some (leader_at 20 0 (1 / 100) 0) \<and>
   calculate_dtl [sample_at 15 0 0 0] [leader_at 10 0 0 0, leader_at 20 0 (1 / 100) 0] two_marks
     = Inr [\<lparr>DTL_DATETIME = 15,
             DTL_DIRECT = haversine_distance (0, 0) (0, 1 / 100),
             DTL_INDIRECT = haversine_distance (0, 0) (0, 1 / 100),
             LEG_BEHIND = 0\<rparr>]"
  using searchsorted_example
  by (simp add: calculate_dtl_def dtl_frame_def entry_to_row_def find_leader_row_def dtl_row_def
      leader_at_def sample_at_def two_marks_def first_mark_def py_index_def mk_compound_def
      mk_mark_def Let_def)

text \<open>
  Claim C6, amended: for a leader stream sorted by timestamp, the leader record used for
  a sample is the first record whose timestamp is at or after the sample's timestamp:
  the record of the same instant when there is one, otherwise the next later one, never
  an earlier one (every record in front of it is strictly earlier than the sample).
\<close>

theorem leader_match_is_first_at_or_after:
  assumes "sorted (map LEADER_DATETIME leader_data)"
      and "find_leader_row leader_data t = Some l"
  shows "\<exists>i < length leader_data. l = leader_data ! i \<and> t \<le> LEADER_DATETIME l \<and>
           (\<forall>j < i. LEADER_DATETIME (leader_data ! j) < t)"
  using assms by (rule find_leader_row_first)

text \<open>
  Claim C6, amended, at the leader stream with records at the times 10 and 20 and a
  sample at time 15: the stream is sorted, the match is the record of time 20.
\<close>

theorem leader_match_is_first_at_or_after_witness:
  "sorted (map LEADER_DATETIME [leader_at 10 0 0 0, leader_at 20 0 (1 / 100) 0]) \<and>
   find_leader_row [leader_at 10 0 0 0, leader_at 20 0 (1 / 100) 0] 15
     = Some (leader_at 20 0 (1 / 100) 0) \<and>
   (\<exists>i < length [leader_at 10 0 0 0, leader_at 20 0 (1 / 100) 0].
      leader_at 20 0 (1 / 100) 0 = [leader_at 10 0 0 0, leader_at 20 0 (1 / 100) 0] ! i \<and>
      15 \<le> LEADER_DATETIME (leader_at 20 0 (1 / 100) 0) \<and>
      (\<forall>j < i. LEADER_DATETIME ([leader_at 10 0 0 0, leader_at 20 0 (1 / 100) 0] ! j) < 15))"
proof -
  have s: "sorted (map LEADER_DATETIME [leader_at 10 0 0 0, leader_at 20 0 (1 / 100) 0])"
    by (simp add: leader_at_def)
  have f: "find_leader_row [leader_at 10 0 0 0, leader_at 20 0 (1 / 100) 0] 15
     = Some (leader_at 20 0 (1 / 100) 0)"
    using searchsorted_example by (simp add: find_leader_row_def leader_at_def)
  from leader_match_is_first_at_or_after [OF s f] s f show ?thesis by blast
qed

subsection \<open>Runs of \<open>calculate_dtl\<close> on the examples\<close>

text \<open>
  Leader stream: one record at time 10, position \<open>(0,0)\<close>, leg 1. A sample at time 5 is
  matched with that record and gets float gaps; a sample at time 10 at the leader's
  position is the same-instant case; a sample at time 15 is after the stream. The frame
  built from the same-instant row alone has an all-\<open>int\<close> column \<open>DTL_INDIRECT\<close>, the
  frame built from the skipped row alone has no columns: both fail the validation of the
  returned frame.
\<close>

lemma dtl_run_before_and_same_instant:
  "calculate_dtl [sample_at 5 0 0 0, sample_at 10 0 0 0] [leader_at 10 0 0 1] two_marks
     = Inr [\<lparr>DTL_DATETIME = 5, DTL_DIRECT = 0, DTL_INDIRECT = 0, LEG_BEHIND = 1\<rparr>,
            \<lparr>DTL_DATETIME = 10, DTL_DIRECT = 0, DTL_INDIRECT = 0, LEG_BEHIND = 0\<rparr>]"
  using searchsorted_exact searchsorted_before
  by (simp add: calculate_dtl_def dtl_frame_def entry_to_row_def find_leader_row_def dtl_row_def
      leader_at_def sample_at_def two_marks_def first_mark_def py_index_def mk_compound_def
      mk_mark_def Let_def haversine_refl)

lemma dtl_run_before_only:
  "calculate_dtl [sample_at 5 0 0 0] [leader_at 10 0 0 1] two_marks
     = Inr [\<lparr>DTL_DATETIME = 5, DTL_DIRECT = 0, DTL_INDIRECT = 0, LEG_BEHIND = 1\<rparr>]"
  using searchsorted_before
  by (simp add: calculate_dtl_def dtl_frame_def entry_to_row_def find_leader_row_def dtl_row_def
      leader_at_def sample_at_def two_marks_def first_mark_def py_index_def mk_compound_def
      mk_mark_def Let_def haversine_refl)

lemma dtl_run_same_instant_only:
  "calculate_dtl [sample_at 10 0 0 0] [leader_at 10 0 0 1] two_marks = Inl SchemaError"
  using searchsorted_exact
  by (simp add: calculate_dtl_def dtl_frame_def find_leader_row_def dtl_row_def
      leader_at_def sample_at_def two_marks_def first_mark_def py_index_def mk_compound_def
      mk_mark_def Let_def haversine_refl)

lemma dtl_run_all_skipped:
  "calculate_dtl [sample_at 15 0 0 0] [leader_at 10 0 0 1] two_marks = Inl SchemaError"
  using searchsorted_past_end
  by (simp add: calculate_dtl_def dtl_frame_def find_leader_row_def dtl_row_def
      leader_at_def sample_at_def)

text \<open>
  Claim C7. In every run of \<open>calculate_dtl\<close> that returns a frame, a subject sample whose
  timestamp equals the timestamp of the leader record matched for it and whose
  haversine distance to that leader position is below 1 m has its record in the frame
  with \<open>DTL_INDIRECT = 0\<close> and \<open>LEG_BEHIND = 0\<close>, whatever the leg numbers of subject and
  leader are; and every record of the frame with that timestamp and a direct distance
  below 1 m has these two zeros.
\<close>

theorem same_instant_self_reference:
  assumes "calculate_dtl position_data leader_data course = Inr results"
      and "row \<in> set position_data"
      and "find_leader_row leader_data (DATETIME row) = Some l"
      and "LEADER_DATETIME l = DATETIME row"
      and "haversine_distance (LATITUDE_GPS row, LONGITUDE_GPS row)
             (LEADER_LAT l, LEADER_LON l) < 1"
  shows "\<lparr>DTL_DATETIME = DATETIME row,
          DTL_DIRECT = haversine_distance (LATITUDE_GPS row, LONGITUDE_GPS row)
                         (LEADER_LAT l, LEADER_LON l),
          DTL_INDIRECT = 0,
          LEG_BEHIND = 0\<rparr> \<in> set results \<and>
         (\<forall>r \<in> set results. DTL_DATETIME r = DATETIME row \<and> DTL_DIRECT r < 1 \<longrightarrow>
            DTL_INDIRECT r = 0 \<and> LEG_BEHIND r = 0)"
proof -
  obtain entries where
    loop: "dtl_loop position_data leader_data course = Inr entries" and
    res: "results = map entry_to_row entries"
    using calculate_dtl_frame [OF assms(1)] by blast
  let ?e = "\<lparr>entry_DATETIME = DATETIME row,
             entry_DTL_DIRECT = haversine_distance (LATITUDE_GPS row, LONGITUDE_GPS row)
                                  (LEADER_LAT l, LEADER_LON l),
             entry_DTL_INDIRECT = PyInt 0,
             entry_LEG_BEHIND = 0\<rparr>"
  obtain x where x: "dtl_row row leader_data course = Inr x"
    and mem: "\<forall>e. x = Some e \<longrightarrow> e \<in> set entries"
    using dtl_loop_emits [OF loop assms(2)] by blast
  have "x = Some ?e" using dtl_row_same_instant [OF assms(3-5) x] .
  then have "?e \<in> set entries" using mem by simp
  then have "entry_to_row ?e \<in> set results" using res by simp
  then have first: "\<lparr>DTL_DATETIME = DATETIME row,
          DTL_DIRECT = haversine_distance (LATITUDE_GPS row, LONGITUDE_GPS row)
                         (LEADER_LAT l, LEADER_LON l),
          DTL_INDIRECT = 0,
          LEG_BEHIND = 0\<rparr> \<in> set results"
    by (simp add: entry_to_row_def)
  have second: "DTL_INDIRECT r = 0 \<and> LEG_BEHIND r = 0"
    if r: "r \<in> set results" and t: "DTL_DATETIME r = DATETIME row" and d: "DTL_DIRECT r < 1"
    for r
  proof -
    obtain e where e: "e \<in> set entries" "r = entry_to_row e" using r res by auto
    obtain row' where row': "dtl_row row' leader_data course = Inr (Some e)"
      using dtl_loop_entries [OF loop e(1)] by blast
    obtain l' where l': "find_leader_row leader_data (DATETIME row') = Some l'"
      "entry_DATETIME e = DATETIME row'"
      "LEADER_DATETIME l' = DATETIME row' \<and> entry_DTL_DIRECT e < 1 \<longrightarrow>
         entry_DTL_INDIRECT e = PyInt 0 \<and> entry_LEG_BEHIND e = 0"
      using dtl_row_entry [OF row'] by blast
    have same: "DATETIME row' = DATETIME row" using t e(2) l'(2) by (simp add: entry_to_row_def)
    then have "l' = l" using l'(1) assms(3) by simp
    then have "entry_DTL_INDIRECT e = PyInt 0 \<and> entry_LEG_BEHIND e = 0"
      using l'(3) same assms(4) d e(2) by (simp add: entry_to_row_def)
    then show ?thesis using e(2) by (simp add: entry_to_row_def)
  qed
  show ?thesis using first second by blast
qed

text \<open>
  Claim C7, at a concrete run that returns a frame: leader record at time 10, position
  \<open>(0,0)\<close>, leg 1; subject samples at time 5 and at time 10, both at \<open>(0,0)\<close> on leg 0.
  The sample at time 10 is the same-instant case: its raw leg difference is 1, its record
  has legs-behind 0 and course-adjusted gap 0. The sample at time 5 gives the column
  \<open>DTL_INDIRECT\<close> a float, so the frame passes the validation.
\<close>

theorem same_instant_self_reference_witness:
  "calculate_dtl [sample_at 5 0 0 0, sample_at 10 0 0 0] [leader_at 10 0 0 1] two_marks
     = Inr [\<lparr>DTL_DATETIME = 5, DTL_DIRECT = 0, DTL_INDIRECT = 0, LEG_BEHIND = 1\<rparr>,
            \<lparr>DTL_DATETIME = 10, DTL_DIRECT = 0, DTL_INDIRECT = 0, LEG_BEHIND = 0\<rparr>] \<and>
   sample_at 10 0 0 0 \<in> set [sample_at 5 0 0 0, sample_at 10 0 0 0] \<and>
   find_leader_row [leader_at 10 0 0 1] (DATETIME (sample_at 10 0 0 0))
     = Some (leader_at 10 0 0 1) \<and>
   LEADER_DATETIME (leader_at 10 0 0 1) = DATETIME (sample_at 10 0 0 0) \<and>
   haversine_distance (LATITUDE_GPS (sample_at 10 0 0 0), LONGITUDE_GPS (sample_at 10 0 0 0))
     (LEADER_LAT (leader_at 10 0 0 1), LEADER_LON (leader_at 10 0 0 1)) < 1 \<and>
   LEADER_LEG (leader_at 10 0 0 1) - POS_LEG_NUM (sample_at 10 0 0 0) = 1 \<and>
   \<lparr>DTL_DATETIME = DATETIME (sample_at 10 0 0 0),
    DTL_DIRECT =
      haversine_distance (LATITUDE_GPS (sample_at 10 0 0 0), LONGITUDE_GPS (sample_at 10 0 0 0))
        (LEADER_LAT (leader_at 10 0 0 1), LEADER_LON (leader_at 10 0 0 1)),
    DTL_INDIRECT = 0,
    LEG_BEHIND = 0\<rparr>
     \<in> set [\<lparr>DTL_DATETIME = 5, DTL_DIRECT = 0, DTL_INDIRECT = 0, LEG_BEHIND = 1\<rparr>,
            \<lparr>DTL_DATETIME = 10, DTL_DIRECT = 0, DTL_INDIRECT = 0, LEG_BEHIND = 0\<rparr>]"
proof -
  have m: "sample_at 10 0 0 0 \<in> set [sample_at 5 0 0 0, sample_at 10 0 0 0]" by simp
  have f: "find_leader_row [leader_at 10 0 0 1] (DATETIME (sample_at 10 0 0 0))
     = Some (leader_at 10 0 0 1)"
    using searchsorted_exact by (simp add: find_leader_row_def leader_at_def sample_at_def)
  have t: "LEADER_DATETIME (leader_at 10 0 0 1) = DATETIME (sample_at 10 0 0 0)"
    by (simp add: leader_at_def sample_at_def)
  have d: "haversine_distance
      (LATITUDE_GPS (sample_at 10 0 0 0), LONGITUDE_GPS (sample_at 10 0 0 0))
      (LEADER_LAT (leader_at 10 0 0 1), LEADER_LON (leader_at 10 0 0 1)) < 1"
    by (simp add: leader_at_def sample_at_def haversine_refl)
  have legs: "LEADER_LEG (leader_at 10 0 0 1) - POS_LEG_NUM (sample_at 10 0 0 0) = 1"
    by (simp add: leader_at_def sample_at_def)
  from same_instant_self_reference [OF dtl_run_before_and_same_instant m f t d]
    dtl_run_before_and_same_instant m f t d legs
  show ?thesis by blast
qed

text \<open>
  Claim C10. A subject sample whose timestamp is strictly after the last timestamp of the
  (sorted) leader stream produces no record: the loop body skips it before anything else
  is computed, the result of the whole run is the result of the run without that sample,
  and a frame returned by such a run has fewer rows than the input stream.
\<close>

theorem sample_after_leader_stream_skipped:
  assumes "sorted (map LEADER_DATETIME leader_data)"
      and "leader_data \<noteq> []"
      and "LEADER_DATETIME (last leader_data) < DATETIME row"
  shows "dtl_row row leader_data course = Inr None \<and>
     calculate_dtl (before @ row # rest) leader_data course =
     calculate_dtl (before @ rest) leader_data course \<and>
     (\<forall>results. calculate_dtl (before @ row # rest) leader_data course = Inr results \<longrightarrow>
        length results < length (before @ row # rest))"
proof -
  have "find_leader_row leader_data (DATETIME row) = None"
    using after_last [OF assms] by (rule find_leader_row_none)
  then have skip: "dtl_row row leader_data course = Inr None" by (simp add: dtl_row_def)
  have loop: "dtl_loop (before @ row # rest) leader_data course =
     dtl_loop (before @ rest) leader_data course"
    using skip by (rule dtl_loop_skip)
  then have eq: "calculate_dtl (before @ row # rest) leader_data course =
     calculate_dtl (before @ rest) leader_data course"
    by (simp add: calculate_dtl_def)
  have fewer: "length results < length (before @ row # rest)"
    if r: "calculate_dtl (before @ row # rest) leader_data course = Inr results" for results
  proof -
    obtain entries where
      e: "dtl_loop (before @ row # rest) leader_data course = Inr entries" and
      res: "results = map entry_to_row entries"
      using calculate_dtl_frame [OF r] by blast
    have "dtl_loop (before @ rest) leader_data course = Inr entries" using e loop by simp
    then have "length entries \<le> length (before @ rest)" by (rule dtl_loop_length)
    then show ?thesis using res by simp
  qed
  show ?thesis using skip eq fewer by blast
qed

text \<open>
  Claim C10, at a concrete run that returns a frame: leader stream with one record at
  time 10, subject samples at the times 5 and 15. The sample at time 15 is skipped; two
  samples go in, one record comes out.
\<close>

theorem sample_after_leader_stream_skipped_witness:
  "sorted (map LEADER_DATETIME [leader_at 10 0 0 1]) \<and> [leader_at 10 0 0 1] \<noteq> [] \<and>
   LEADER_DATETIME (last [leader_at 10 0 0 1]) < DATETIME (sample_at 15 0 0 0) \<and>
   dtl_row (sample_at 15 0 0 0) [leader_at 10 0 0 1] two_marks = Inr None \<and>
   calculate_dtl ([sample_at 5 0 0 0] @ sample_at 15 0 0 0 # []) [leader_at 10 0 0 1] two_marks
     = Inr [\<lparr>DTL_DATETIME = 5, DTL_DIRECT = 0, DTL_INDIRECT = 0, LEG_BEHIND = 1\<rparr>] \<and>
   length [\<lparr>DTL_DATETIME = 5, DTL_DIRECT = 0, DTL_INDIRECT = 0, LEG_BEHIND = 1\<rparr>]
     < length ([sample_at 5 0 0 0] @ sample_at 15 0 0 0 # [])"
proof -
  have s: "sorted (map LEADER_DATETIME [leader_at 10 0 0 1])" by simp
  have n: "[leader_at 10 0 0 1] \<noteq> []" by simp
  have a: "LEADER_DATETIME (last [leader_at 10 0 0 1]) < DATETIME (sample_at 15 0 0 0)"
    by (simp add: leader_at_def sample_at_def)
  have e: "calculate_dtl ([sample_at 5 0 0 0] @ []) [leader_at 10 0 0 1] two_marks
     = Inr [\<lparr>DTL_DATETIME = 5, DTL_DIRECT = 0, DTL_INDIRECT = 0, LEG_BEHIND = 1\<rparr>]"
    using dtl_run_before_only by simp
  from sample_after_leader_stream_skipped
      [OF s n a, of two_marks "[sample_at 5 0 0 0]" "[]"]
  have skip: "dtl_row (sample_at 15 0 0 0) [leader_at 10 0 0 1] two_marks = Inr None"
    and eq: "calculate_dtl ([sample_at 5 0 0 0] @ sample_at 15 0 0 0 # [])
        [leader_at 10 0 0 1] two_marks
      = calculate_dtl ([sample_at 5 0 0 0] @ []) [leader_at 10 0 0 1] two_marks"
    and fewer: "\<forall>results. calculate_dtl ([sample_at 5 0 0 0] @ sample_at 15 0 0 0 # [])
        [leader_at 10 0 0 1] two_marks = Inr results \<longrightarrow>
        length results < length ([sample_at 5 0 0 0] @ sample_at 15 0 0 0 # [])"
    by blast+
  have run: "calculate_dtl ([sample_at 5 0 0 0] @ sample_at 15 0 0 0 # [])
        [leader_at 10 0 0 1] two_marks
     = Inr [\<lparr>DTL_DATETIME = 5, DTL_DIRECT = 0, DTL_INDIRECT = 0, LEG_BEHIND = 1\<rparr>]"
    using eq e by simp
  show ?thesis using s n a skip run fewer by blast
qed

section \<open>Velocity made good on course\<close>

lemma cos_radians_abs: "cos (radians \<bar>x\<bar>) = cos (radians x)"
  by (cases "0 \<le> x") (simp_all add: radians_def)

lemma cos_radians_fold: "cos (radians (360 - x)) = cos (radians x)"
proof -
  have "radians (360 - x) = 2 * pi - radians x" by (simp add: radians_def field_simps)
  then show ?thesis by (simp add: cos_diff)
qed

lemma cos_radians_turns: "cos (radians (x - 360 * of_int k)) = cos (radians x)"
proof -
  have "radians (x - 360 * of_int k) = radians x - (2 * pi) * of_int k"
    by (simp add: radians_def field_simps)
  then show ?thesis by (simp add: cos_diff del: of_int_mult)
qed

lemma calculate_vmc_cos: "calculate_vmc s h b = s * cos (radians (h - b))"
  by (simp add: calculate_vmc_def Let_def cos_radians_fold cos_radians_abs)

lemma angular_difference_range:
  "0 \<le> angular_difference h b \<and> angular_difference h b \<le> 180"
proof -
  define d where "d = \<bar>h - b\<bar>"
  define m where "m = d - 360 * of_int \<lfloor>d / 360\<rfloor>"
  have "of_int \<lfloor>d / 360\<rfloor> \<le> d / 360" "d / 360 < of_int \<lfloor>d / 360\<rfloor> + 1" by linarith+
  then have "0 \<le> m" "m < 360" by (simp_all add: m_def field_simps)
  then show ?thesis by (auto simp: angular_difference_def Let_def d_def [symmetric] m_def [symmetric])
qed

lemma calculate_vmc_angular_difference:
  "calculate_vmc s h b = s * cos (radians (angular_difference h b))"
  by (simp add: calculate_vmc_cos angular_difference_def Let_def cos_radians_fold
      cos_radians_turns cos_radians_abs)

lemma code_reduction_in_range:
  "\<bar>h - b\<bar> \<le> 360 \<Longrightarrow>
     (let d = \<bar>h - b\<bar> in if d > 180 then 360 - d else d) = angular_difference h b"
proof (cases "\<bar>h - b\<bar> = 360")
  case True
  then show ?thesis by (simp add: angular_difference_def)
next
  case False
  assume "\<bar>h - b\<bar> \<le> 360"
  then have "0 \<le> \<bar>h - b\<bar> / 360" "\<bar>h - b\<bar> / 360 < 1" using False by simp_all
  then have "\<lfloor>\<bar>h - b\<bar> / 360\<rfloor> = 0" by linarith
  then show ?thesis by (simp add: angular_difference_def Let_def)
qed

lemma vmc_leg_seven: "POS_LEG_NUM row = 7 \<Longrightarrow> vmc_row bearing row course = Inr 0"
  by (simp add: vmc_row_def)

text \<open>
  The first half of claim C8 holds for every sample: the value computed by
  \<open>calculate_vmc\<close> is the speed times the cosine of the angular difference between
  heading and bearing, folded into \<open>[0, 180]\<close> degrees (lemmas
  \<open>calculate_vmc_angular_difference\<close> and \<open>angular_difference_range\<close>). A row with leg
  number 7 reports \<open>0\<close> (lemma \<open>vmc_leg_seven\<close>); the test for a finished boat is that
  constant, not the length of the course.
\<close>

lemma vmc_non_finished_row:
  "POS_LEG_NUM row \<noteq> 7 \<Longrightarrow> first_mark course (POS_LEG_NUM row) = Inr next_mark \<Longrightarrow>
     vmc_row bearing row course =
       Inr (SPEED row * cos (radians (angular_difference (HEADING row)
              (bearing (LATITUDE_GPS row) (LONGITUDE_GPS row)
                 (mark_lat next_mark) (mark_lon next_mark)))))"
  by (simp add: vmc_row_def calculate_vmc_angular_difference)

lemma vmc_seven_marks_finished:
  "length course = 7 \<Longrightarrow> POS_LEG_NUM row = int (length course) \<Longrightarrow>
     vmc_row bearing row course = Inr 0"
  by (simp add: vmc_row_def)

lemma vmc_empty_stream: "calculate_track_vmc bearing [] course = Inl SchemaErrors"
  by (simp add: calculate_track_vmc_def)

text \<open>
  Claim C8 says that VMC is the speed times the cosine of the heading/bearing difference
  reduced into \<open>[0, 180]\<close> degrees, and that a sample of a finished boat (leg index equal
  to the course length \<open>N\<close>) reports VMC \<open>0\<close>. The code on a course of \<open>N = 1\<close> compound
  mark and one sample with leg index \<open>1 = N\<close>: the leg index is not 7, so
  \<open>course[1]\<close> is evaluated and the run ends with an \<open>IndexError\<close> instead of the row
  \<open>0\<close>.
\<close>

theorem vmc_finished_row_raises:
  "calculate_track_vmc bearing [sample_at 0 0 0 1] [mk_compound ''M1'' [mk_mark ''M1'' 0 0]]
     = Inl IndexError"
  by (simp add: calculate_track_vmc_def vmc_row_def first_mark_def py_index_def sample_at_def)

end
